theory Spec2Isabelle
  imports Main "HOL-Library.AList"
begin

section \<open>Data model\<close>

text \<open>
  The Message schema (models/Message.js). \<open>_id\<close> is an ObjectId, modelled as a natural
  number; user, group and socket identifiers are strings; dates are milliseconds since
  the epoch, as \<open>Date.now()\<close> gives them. \<open>messageType\<close> is never read or written by the
  handlers modelled here and is left out.
\<close>

datatype status = Sent | Delivered | Read

record msg =
  mid :: nat
  senderId :: string
  receiverId :: "string option"
  groupId :: "string option"
  message :: string
  status :: status
  deliveredTo :: "(string \<times> int) list"
  readBy :: "(string \<times> int) list"
  createdAt :: int

text \<open>
  The process state: the Message collection, the \<open>onlineUsers\<close> Map of socket.js
  (userId to socket.id), the \<open>messageCache\<close> Map of the group controller (key to
  timestamp), the members of each Group document and the ids of the User documents.
  A JavaScript Map iterates in insertion order and \<open>set\<close> on a present key keeps its
  place: an association list with \<open>AList.update\<close> and \<open>AList.delete\<close>.
\<close>

record state =
  messages :: "msg list"
  onlineUsers :: "(string \<times> string) list"
  messageCache :: "(string \<times> int) list"
  groups :: "(string \<times> string list) list"
  users :: "string list"

text \<open>Events emitted towards clients: \<open>io.to(socket).emit\<close> and \<open>io.emit\<close>.\<close>

datatype event =
    OnlineUsers "string list"
  | ReceiveMessage msg
  | ReceiveGroupMessage msg bool
  | MessageStatusUpdate nat status
  | MessagesMarkedRead string
  | MessagesRead string
  | MessagesDelivered string

datatype emission = ToSocket string event | ToAll event

section \<open>Presence registry (socket.js)\<close>

text \<open>
  \<open>onlineUsers.get(id)\<close> followed by a truthiness test: an absent key gives
  \<open>undefined\<close>, and an empty string would be falsy too.
\<close>

definition online_socket :: "(string \<times> string) list \<Rightarrow> string \<Rightarrow> string option" where
  "online_socket reg user =
     (case map_of reg user of
        None \<Rightarrow> None
      | Some sock \<Rightarrow> if sock = [] then None else Some sock)"

text \<open>The \<open>join\<close> handler: \<open>onlineUsers.set(userId, socket.id)\<close>, then the full roster is broadcast.\<close>

definition join :: "string \<Rightarrow> string \<Rightarrow> state \<Rightarrow> state \<times> emission list" where
  "join socket_id user s =
     (let reg = AList.update user socket_id (onlineUsers s)
      in (s\<lparr>onlineUsers := reg\<rparr>, [ToAll (OnlineUsers (map fst reg))]))"

text \<open>
  The \<open>disconnect\<close> handler: the \<open>for ... of\<close> loop stops at the first entry whose value
  is the socket's id and deletes that key; then the roster is broadcast.
\<close>

definition disconnect :: "string \<Rightarrow> state \<Rightarrow> state \<times> emission list" where
  "disconnect socket_id s =
     (let reg = (case find (\<lambda>(key, val). val = socket_id) (onlineUsers s) of
                   None \<Rightarrow> onlineUsers s
                 | Some (key, val) \<Rightarrow> AList.delete key (onlineUsers s))
      in (s\<lparr>onlineUsers := reg\<rparr>, [ToAll (OnlineUsers (map fst reg))]))"

section \<open>Message store\<close>

text \<open>
  The storage operations the handlers call. \<open>findById\<close> returns the first document with
  the id, \<open>findByIdAndUpdate\<close> rewrites that document, \<open>updateMany\<close> rewrites every
  document matching the filter, \<open>create\<close> appends a document under a fresh id.
\<close>

definition findById :: "nat \<Rightarrow> msg list \<Rightarrow> msg option" where
  "findById i ms = find (\<lambda>m. mid m = i) ms"

fun findByIdAndUpdate :: "nat \<Rightarrow> (msg \<Rightarrow> msg) \<Rightarrow> msg list \<Rightarrow> msg list" where
  "findByIdAndUpdate i f [] = []"
| "findByIdAndUpdate i f (m # ms) =
     (if mid m = i then f m # ms else m # findByIdAndUpdate i f ms)"

definition updateMany :: "(msg \<Rightarrow> bool) \<Rightarrow> (msg \<Rightarrow> msg) \<Rightarrow> msg list \<Rightarrow> msg list" where
  "updateMany q f ms = map (\<lambda>m. if q m then f m else m) ms"

definition newId :: "msg list \<Rightarrow> nat" where
  "newId ms = Suc (fold max (map mid ms) 0)"

text \<open>
  \<open>.sort({createdAt: -1}).skip(skip).limit(limit)\<close>, run together with
  \<open>countDocuments\<close> under \<open>Promise.all\<close>. The storage rejects a negative skip; the driver
  reads a negative limit as its absolute value. The result is the count and the page,
  newest first. Messages with equal \<open>createdAt\<close> come in an order the storage chooses;
  here they keep their stored order.
\<close>

definition newest_first :: "msg list \<Rightarrow> msg list" where
  "newest_first ms = sort_key (\<lambda>m. - createdAt m) ms"

definition find_page :: "(msg \<Rightarrow> bool) \<Rightarrow> int \<Rightarrow> int \<Rightarrow> msg list \<Rightarrow> (int \<times> msg list) option" where
  "find_page q skip limit ms =
     (if skip < 0 then None
      else Some (int (length (filter q ms)),
                 take (nat \<bar>limit\<bar>) (drop (nat skip) (newest_first (filter q ms)))))"

text \<open>
  How the storage behaves on one history request: it settles the combined query after
  so many milliseconds, resolving or rejecting it.
\<close>

datatype storage = Resolves nat | Rejects nat

text \<open>How the storage behaves on one send: \<open>Message.create\<close>, \<open>Group.findById\<close>, and the populate that precedes the live event.\<close>

record send_storage =
  create_ok :: bool
  group_ok :: bool
  populate_ok :: bool

section \<open>HTTP responses\<close>

record pagination =
  currentPage :: int
  totalPages :: int
  totalMessages :: int
  hasMore :: bool

datatype body =
    Page "msg list" pagination
  | NewMessage msg
  | Info string
  | Failure string

type_synonym response = "nat \<times> body"

section \<open>Acknowledgment handlers (socket.js)\<close>

text \<open>The notification to the message's sender: \<open>onlineUsers.get(message.senderId.toString())\<close>.\<close>

definition notify_sender :: "state \<Rightarrow> string \<Rightarrow> event \<Rightarrow> emission list" where
  "notify_sender s sender ev =
     (case online_socket (onlineUsers s) sender of
        None \<Rightarrow> []
      | Some senderSocket \<Rightarrow> [ToSocket senderSocket ev])"

text \<open>
  \<open>messageDelivered\<close> awaits the storage twice. \<open>findById\<close> gives it a snapshot of the
  message; what follows that await is \<open>delivered_write\<close>: the update is chosen from the
  snapshot and written with no condition on the stored status, and the sender is
  notified. Other handlers may run between the two.
\<close>

definition delivered_write :: "nat \<Rightarrow> string \<Rightarrow> int \<Rightarrow> msg \<Rightarrow> state \<Rightarrow> state \<times> emission list" where
  "delivered_write messageId user now m s =
     (s\<lparr>messages :=
          (if groupId m \<noteq> None then
             (if \<not> list_ex (\<lambda>d. fst d = user) (deliveredTo m)
              then findByIdAndUpdate messageId
                     (\<lambda>x. x\<lparr>deliveredTo := deliveredTo x @ [(user, now)],
                            status := (if status m = Sent then Delivered else status m)\<rparr>)
                     (messages s)
              else messages s)
           else
             (if status m = Sent
              then findByIdAndUpdate messageId (\<lambda>x. x\<lparr>status := Delivered\<rparr>) (messages s)
              else messages s))\<rparr>,
      notify_sender s (senderId m) (MessageStatusUpdate messageId Delivered))"

text \<open>
  The handler with nothing running in between. \<open>db_ok\<close> says that the storage operations
  of this call succeed; a failure is caught and logged, with no update and no event.
\<close>

definition messageDelivered :: "nat \<Rightarrow> string \<Rightarrow> int \<Rightarrow> bool \<Rightarrow> state \<Rightarrow> state \<times> emission list" where
  "messageDelivered messageId user now db_ok s =
     (if \<not> db_ok then (s, [])
      else case findById messageId (messages s) of
        None \<Rightarrow> (s, [])
      | Some m \<Rightarrow> delivered_write messageId user now m s)"

text \<open>\<open>messageRead\<close>, in the same two parts.\<close>

definition read_write :: "nat \<Rightarrow> string \<Rightarrow> int \<Rightarrow> msg \<Rightarrow> state \<Rightarrow> state \<times> emission list" where
  "read_write messageId user now m s =
     (s\<lparr>messages :=
          (if groupId m \<noteq> None then
             (if \<not> list_ex (\<lambda>r. fst r = user) (readBy m)
              then findByIdAndUpdate messageId
                     (\<lambda>x. x\<lparr>readBy := readBy x @ [(user, now)]\<rparr>) (messages s)
              else messages s)
           else findByIdAndUpdate messageId (\<lambda>x. x\<lparr>status := Read\<rparr>) (messages s))\<rparr>,
      notify_sender s (senderId m) (MessageStatusUpdate messageId Read))"

definition messageRead :: "nat \<Rightarrow> string \<Rightarrow> int \<Rightarrow> bool \<Rightarrow> state \<Rightarrow> state \<times> emission list" where
  "messageRead messageId user now db_ok s =
     (if \<not> db_ok then (s, [])
      else case findById messageId (messages s) of
        None \<Rightarrow> (s, [])
      | Some m \<Rightarrow> read_write messageId user now m s)"

text \<open>\<open>markMessagesRead\<close> (socket event) and \<open>markAsRead\<close> (HTTP, chat.controller.js).\<close>

definition markMessagesRead :: "string \<Rightarrow> string \<Rightarrow> bool \<Rightarrow> state \<Rightarrow> state \<times> emission list" where
  "markMessagesRead sender receiver db_ok s =
     (if \<not> db_ok then (s, [])
      else (s\<lparr>messages :=
                updateMany (\<lambda>m. senderId m = sender \<and> receiverId m = Some receiver \<and> status m \<noteq> Read)
                  (\<lambda>m. m\<lparr>status := Read\<rparr>) (messages s)\<rparr>,
            notify_sender s sender (MessagesMarkedRead receiver)))"

definition markAsRead :: "string \<Rightarrow> string \<Rightarrow> bool \<Rightarrow> state \<Rightarrow> state \<times> response \<times> emission list" where
  "markAsRead me sender db_ok s =
     (if \<not> db_ok then (s, (500, Failure ''Failed to mark as read''), [])
      else (s\<lparr>messages :=
                updateMany (\<lambda>m. senderId m = sender \<and> receiverId m = Some me \<and> status m \<noteq> Read)
                  (\<lambda>m. m\<lparr>status := Read\<rparr>) (messages s)\<rparr>,
            (200, Info ''Messages marked as read''),
            notify_sender s sender (MessagesRead me)))"

section \<open>History (chat.controller.js getMessages, group.controller.js getGroupMessages)\<close>

text \<open>\<open>parseInt(x) || d\<close>: \<open>None\<close> is NaN (a missing or non-numeric parameter); 0 is falsy too.\<close>

definition parseInt_or :: "int option \<Rightarrow> int \<Rightarrow> int" where
  "parseInt_or x d = (case x of None \<Rightarrow> d | Some n \<Rightarrow> if n = 0 then d else n)"

text \<open>\<open>Math.ceil(a / b)\<close> on integers, \<open>b\<close> not zero.\<close>

definition ceil_div :: "int \<Rightarrow> int \<Rightarrow> int" where
  "ceil_div a b = - ((- a) div b)"

text \<open>
  After \<open>populate("receiverId")\<close> the field is the User document, or null when there is
  none; \<open>m.receiverId._id\<close> then throws.
\<close>

definition populated_receiver :: "state \<Rightarrow> msg \<Rightarrow> bool" where
  "populated_receiver s m =
     (case receiverId m of None \<Rightarrow> False | Some r \<Rightarrow> r \<in> set (users s))"

definition direct_query :: "string \<Rightarrow> string \<Rightarrow> msg \<Rightarrow> bool" where
  "direct_query me receiver m \<longleftrightarrow>
     ((senderId m = me \<and> receiverId m = Some receiver)
      \<or> (senderId m = receiver \<and> receiverId m = Some me))
     \<and> groupId m = None"

definition getMessages ::
  "string \<Rightarrow> string \<Rightarrow> int option \<Rightarrow> int option \<Rightarrow> storage \<Rightarrow> state \<Rightarrow> state \<times> response \<times> emission list" where
  "getMessages me receiver page_q limit_q db s =
     (let page = parseInt_or page_q 1;
          limit = parseInt_or limit_q 50;
          skip = (page - 1) * limit
      in case db of
           Rejects t \<Rightarrow> (s, (500, Failure ''Failed to fetch messages''), [])
         | Resolves t \<Rightarrow>
            (case find_page (direct_query me receiver) skip limit (messages s) of
               None \<Rightarrow> (s, (500, Failure ''Failed to fetch messages''), [])
             | Some (n_total, found) \<Rightarrow>
                (let reversedMessages = rev found in
                 if \<not> list_all (populated_receiver s) reversedMessages
                 then (s, (500, Failure ''Failed to fetch messages''), [])
                 else
                   (let undeliveredIds =
                          map mid (filter (\<lambda>m. receiverId m = Some me \<and> status m = Sent) reversedMessages);
                        resp = (200, Page reversedMessages
                                  \<lparr>currentPage = page, totalPages = ceil_div n_total limit,
                                   totalMessages = n_total,
                                   hasMore = (skip + int (length reversedMessages) < n_total)\<rparr>)
                    in if undeliveredIds \<noteq> []
                       then (s\<lparr>messages :=
                                 updateMany (\<lambda>m. mid m \<in> set undeliveredIds \<and> status m = Sent)
                                   (\<lambda>m. m\<lparr>status := Delivered\<rparr>) (messages s)\<rparr>,
                             resp,
                             notify_sender s receiver (MessagesDelivered me))
                       else (s, resp, [])))))"

text \<open>
  \<open>getGroupMessages\<close>: the combined query races a 3000 ms timer; whatever the inner
  \<open>try\<close> throws (the timer, or a rejected query) is answered with the empty page. A query
  that settles in the very millisecond the timer is due is given to the timer.
\<close>

definition empty_page :: "int \<Rightarrow> response" where
  "empty_page page =
     (200, Page [] \<lparr>currentPage = page, totalPages = 0, totalMessages = 0, hasMore = False\<rparr>)"

definition getGroupMessages ::
  "string \<Rightarrow> int option \<Rightarrow> int option \<Rightarrow> storage \<Rightarrow> state \<Rightarrow> state \<times> response \<times> emission list" where
  "getGroupMessages grp page_q limit_q db s =
     (let page = parseInt_or page_q 1;
          limit = parseInt_or limit_q 50;
          skip = (page - 1) * limit;
          raced = (case db of
                     Rejects t \<Rightarrow> None
                   | Resolves t \<Rightarrow>
                       if t < 3000
                       then find_page (\<lambda>m. groupId m = Some grp) skip limit (messages s)
                       else None)
      in case raced of
           None \<Rightarrow> (s, empty_page page, [])
         | Some (n_total, found) \<Rightarrow>
             (s, (200, Page (rev found)
                    \<lparr>currentPage = page, totalPages = ceil_div n_total limit,
                     totalMessages = n_total,
                     hasMore = (skip + int (length found) < n_total)\<rparr>), []))"

section \<open>Sending (chat.controller.js sendMessage, group.controller.js sendGroupMessage)\<close>

definition sendMessage ::
  "string \<Rightarrow> string \<Rightarrow> string \<Rightarrow> int \<Rightarrow> send_storage \<Rightarrow> state \<Rightarrow> state \<times> response \<times> emission list" where
  "sendMessage me receiver content now db s =
     (if receiver = [] \<or> content = []
      then (s, (400, Info ''Receiver and message are required''), [])
      else
        (let receiverSocketId = online_socket (onlineUsers s) receiver;
             initialStatus = (if receiverSocketId \<noteq> None then Delivered else Sent)
         in if \<not> create_ok db
            then (s, (500, Failure ''Failed to send message''), [])
            else
              (let newMessage =
                     \<lparr>mid = newId (messages s), senderId = me, receiverId = Some receiver,
                      groupId = None, message = content, status = initialStatus,
                      deliveredTo = [], readBy = [], createdAt = now\<rparr>
               in (s\<lparr>messages := messages s @ [newMessage]\<rparr>,
                   (201, NewMessage newMessage),
                   (case receiverSocketId of
                      None \<Rightarrow> []
                    | Some sock \<Rightarrow>
                        if populate_ok db then [ToSocket sock (ReceiveMessage newMessage)] else [])))))"

text \<open>
  The duplicate check at the head of \<open>sendGroupMessage\<close> (the spec's shouldSuppress):
  the key is \<open>`${senderId}:${groupId}:${message}`\<close>; a recent entry answers the request
  at once, before \<open>messageCache.set\<close>; otherwise the key is stamped with \<open>now\<close>.
\<close>

definition cacheKey :: "string \<Rightarrow> string \<Rightarrow> string \<Rightarrow> string" where
  "cacheKey sender grp content = sender @ '':'' @ grp @ '':'' @ content"

definition shouldSuppress :: "string \<Rightarrow> int \<Rightarrow> (string \<times> int) list \<Rightarrow> bool \<times> (string \<times> int) list" where
  "shouldSuppress key now cache =
     (if (case map_of cache key of
            None \<Rightarrow> False
          | Some lastRequest \<Rightarrow> lastRequest \<noteq> 0 \<and> now - lastRequest < 3000)
      then (True, cache)
      else (False, AList.update key now cache))"

text \<open>The cleaner that runs every 10 s: entries older than 10 s are deleted.\<close>

definition sweep :: "int \<Rightarrow> state \<Rightarrow> state" where
  "sweep now s =
     s\<lparr>messageCache := filter (\<lambda>(key, timestamp). \<not> (now - timestamp > 10000)) (messageCache s)\<rparr>"

text \<open>
  \<open>sendGroupMessage\<close>. \<open>deliveredTo\<close> is filled from the whole \<open>onlineUsers\<close> Map, the
  sender excepted; the Group document is read only afterwards, for the live events. The
  bump of the group's \<open>updatedAt\<close> touches no field of this model.
\<close>

definition sendGroupMessage ::
  "string \<Rightarrow> string \<Rightarrow> string \<Rightarrow> int \<Rightarrow> send_storage \<Rightarrow> state \<Rightarrow> state \<times> response \<times> emission list" where
  "sendGroupMessage me grp content now db s =
     (if grp = [] \<or> content = []
      then (s, (400, Info ''Group and message are required''), [])
      else case shouldSuppress (cacheKey me grp content) now (messageCache s) of
        (True, cache) \<Rightarrow> (s, (200, Info ''Duplicate request ignored''), [])
      | (False, cache) \<Rightarrow>
         (let s1 = s\<lparr>messageCache := cache\<rparr>;
              delivered = map (\<lambda>(user, socketId). (user, now))
                            (filter (\<lambda>(user, socketId). user \<noteq> me) (onlineUsers s))
          in if \<not> create_ok db
             then (s1, (500, Failure ''Failed to send message''), [])
             else
               (let newMessage =
                      \<lparr>mid = newId (messages s), senderId = me, receiverId = None,
                       groupId = Some grp, message = content,
                       status = (if delivered \<noteq> [] then Delivered else Sent),
                       deliveredTo = delivered, readBy = [], createdAt = now\<rparr>;
                    s2 = s1\<lparr>messages := messages s @ [newMessage]\<rparr>
                in if \<not> group_ok db
                   then (s2, (500, Failure ''Failed to send message''), [])
                   else
                     (let groupMemberIds = (case map_of (groups s) grp of
                                              None \<Rightarrow> []
                                            | Some members \<Rightarrow> members)
                      in (s2, (201, NewMessage newMessage),
                          concat (map (\<lambda>memberId.
                                         if memberId \<noteq> me
                                         then (case online_socket (onlineUsers s) memberId of
                                                 None \<Rightarrow> []
                                               | Some socketId \<Rightarrow>
                                                   [ToSocket socketId
                                                      (ReceiveGroupMessage newMessage (populate_ok db))])
                                         else [])
                                    groupMemberIds))))))"

section \<open>Sequences of operations\<close>

text \<open>An operation run whole, with no other handler between its storage calls.\<close>

datatype op =
    Join string string
  | Disconnect string
  | AckDelivered nat string int bool
  | AckRead nat string int bool
  | MarkMessagesRead string string bool
  | MarkAsRead string string bool
  | GetMessages string string "int option" "int option" storage
  | GetGroupMessages string "int option" "int option" storage
  | SendMessage string string string int send_storage
  | SendGroupMessage string string string int send_storage
  | Sweep int

fun step :: "op \<Rightarrow> state \<Rightarrow> state" where
  "step (Join sock user) s = fst (join sock user s)"
| "step (Disconnect sock) s = fst (disconnect sock s)"
| "step (AckDelivered i user now ok) s = fst (messageDelivered i user now ok s)"
| "step (AckRead i user now ok) s = fst (messageRead i user now ok s)"
| "step (MarkMessagesRead sender receiver ok) s = fst (markMessagesRead sender receiver ok s)"
| "step (MarkAsRead me sender ok) s = fst (markAsRead me sender ok s)"
| "step (GetMessages me receiver p l db) s = fst (getMessages me receiver p l db s)"
| "step (GetGroupMessages grp p l db) s = fst (getGroupMessages grp p l db s)"
| "step (SendMessage me receiver content now db) s = fst (sendMessage me receiver content now db s)"
| "step (SendGroupMessage me grp content now db) s = fst (sendGroupMessage me grp content now db s)"
| "step (Sweep now) s = sweep now s"

fun run :: "op list \<Rightarrow> state \<Rightarrow> state" where
  "run [] s = s"
| "run (x # xs) s = run xs (step x s)"

text \<open>
  Handlers interleave at their awaits. An acknowledgment handler that has its snapshot
  and has not yet written is suspended; a schedule runs whole operations, takes
  snapshots for new acknowledgments, and lets a suspended one continue with its write.
\<close>

datatype ack = AckOfDelivery | AckOfRead

datatype action =
    Whole op
  | Snapshot ack nat string bool
  | Continue nat int bool

type_synonym suspended = "ack \<times> nat \<times> string \<times> msg"

fun act :: "action \<Rightarrow> state \<times> suspended list \<Rightarrow> state \<times> suspended list" where
  "act (Whole x) (s, ps) = (step x s, ps)"
| "act (Snapshot k i user ok) (s, ps) =
     (if \<not> ok then (s, ps)
      else case findById i (messages s) of
        None \<Rightarrow> (s, ps)
      | Some m \<Rightarrow> (s, ps @ [(k, i, user, m)]))"
| "act (Continue n now ok) (s, ps) =
     (if n < length ps
      then (case ps ! n of
              (k, i, user, m) \<Rightarrow>
                ((if \<not> ok then s
                  else case k of
                    AckOfDelivery \<Rightarrow> fst (delivered_write i user now m s)
                  | AckOfRead \<Rightarrow> fst (read_write i user now m s)),
                 take n ps @ drop (Suc n) ps))
      else (s, ps))"

fun schedule :: "action list \<Rightarrow> state \<times> suspended list \<Rightarrow> state \<times> suspended list" where
  "schedule [] c = c"
| "schedule (a # rest) c = schedule rest (act a c)"

text \<open>The rank of a coarse status along sent, delivered, read.\<close>

fun rank :: "status \<Rightarrow> nat" where
  "rank Sent = 0"
| "rank Delivered = 1"
| "rank Read = 2"

text \<open>
  One message list has advanced to another: every message of the first is still there, at
  the same place and under the same id, with a status that is the same or further along.
\<close>

definition advanced :: "msg list \<Rightarrow> msg list \<Rightarrow> bool" where
  "advanced ms ms' \<longleftrightarrow>
     length ms \<le> length ms' \<and>
     (\<forall>i < length ms. mid (ms' ! i) = mid (ms ! i) \<and> rank (status (ms ! i)) \<le> rank (status (ms' ! i)))"

section \<open>Sample states\<close>

text \<open>
  Concrete states on which the handlers are evaluated: a direct conversation with one
  message (sent, and already read), a group with an online non-member, and a store with
  several direct and group messages kept out of creation order.
\<close>

definition demo_direct :: state where
  "demo_direct =
     \<lparr>messages = [\<lparr>mid = 0, senderId = ''alice'', receiverId = Some ''bob'', groupId = None,
                   message = ''hi'', status = Sent, deliveredTo = [], readBy = [],
                   createdAt = 100\<rparr>],
      onlineUsers = [(''alice'', ''s1'')], messageCache = [], groups = [],
      users = [''alice'', ''bob'']\<rparr>"

definition demo_group :: state where
  "demo_group =
     \<lparr>messages = [\<lparr>mid = 0, senderId = ''alice'', receiverId = None, groupId = Some ''g1'',
                   message = ''hello'', status = Delivered, deliveredTo = [(''bob'', 100)],
                   readBy = [], createdAt = 100\<rparr>],
      onlineUsers = [(''alice'', ''s1''), (''bob'', ''s2''), (''dave'', ''s4'')],
      messageCache = [], groups = [(''g1'', [''alice'', ''bob'', ''carol''])],
      users = [''alice'', ''bob'', ''carol'', ''dave'']\<rparr>"

definition all_ok :: send_storage where
  "all_ok = \<lparr>create_ok = True, group_ok = True, populate_ok = True\<rparr>"

definition demo_read :: state where
  "demo_read =
     \<lparr>messages = [\<lparr>mid = 0, senderId = ''alice'', receiverId = Some ''bob'', groupId = None,
                   message = ''hi'', status = Read, deliveredTo = [], readBy = [],
                   createdAt = 100\<rparr>],
      onlineUsers = [(''alice'', ''s1'')], messageCache = [], groups = [],
      users = [''alice'', ''bob'']\<rparr>"

definition demo_history :: state where
  "demo_history =
     \<lparr>messages =
        [\<lparr>mid = 0, senderId = ''alice'', receiverId = Some ''bob'', groupId = None,
          message = ''three'', status = Sent, deliveredTo = [], readBy = [], createdAt = 300\<rparr>,
         \<lparr>mid = 1, senderId = ''bob'', receiverId = Some ''alice'', groupId = None,
          message = ''one'', status = Read, deliveredTo = [], readBy = [], createdAt = 100\<rparr>,
         \<lparr>mid = 2, senderId = ''alice'', receiverId = Some ''bob'', groupId = None,
          message = ''two'', status = Sent, deliveredTo = [], readBy = [], createdAt = 200\<rparr>,
         \<lparr>mid = 3, senderId = ''alice'', receiverId = None, groupId = Some ''g1'',
          message = ''late'', status = Sent, deliveredTo = [], readBy = [], createdAt = 500\<rparr>,
         \<lparr>mid = 4, senderId = ''bob'', receiverId = None, groupId = Some ''g1'',
          message = ''early'', status = Sent, deliveredTo = [], readBy = [], createdAt = 400\<rparr>],
      onlineUsers = [(''alice'', ''s1'')], messageCache = [],
      groups = [(''g1'', [''alice'', ''bob''])], users = [''alice'', ''bob'']\<rparr>"

section \<open>Properties of the presence registry\<close>

lemma find_value_Some:
  "find (\<lambda>(key, val). val = sock) reg = Some (k, v) \<Longrightarrow> (k, v) \<in> set reg \<and> v = sock"
  by (induction reg) (auto split: if_splits)

lemma length_delete_distinct:
  "distinct (map fst reg) \<Longrightarrow> (k, v) \<in> set reg \<Longrightarrow>
   Suc (length (AList.delete k reg)) = length reg"
proof (induction reg)
  case Nil
  then show ?case by simp
next
  case (Cons e reg)
  show ?case
  proof (cases "fst e = k")
    case True
    with Cons.prems have "k \<notin> fst ` set reg" by auto
    then have "AList.delete k reg = reg"
      by (simp add: delete_id)
    with True show ?thesis by (cases e) (simp add: AList.delete_eq)
  next
    case False
    with Cons show ?thesis by (auto simp: AList.delete_eq)
  qed
qed

text \<open>
  C9, as stated, fails in its last clause: a disconnect of a socket that no entry
  carries leaves the state as it was, but it is not silent: the roster is broadcast
  to every client all the same.
\<close>

theorem disconnect_no_match_broadcasts:
  "''s9'' \<notin> snd ` set (onlineUsers demo_group)
   \<and> fst (disconnect ''s9'' demo_group) = demo_group
   \<and> snd (disconnect ''s9'' demo_group) = [ToAll (OnlineUsers [''alice'', ''bob'', ''dave''])]"
  by (simp add: disconnect_def demo_group_def)

text \<open>
  C9, amended. A disconnect removes at most one registry entry, and only an entry whose
  stored handle is the disconnecting socket's id; the entry of every user stored with
  another handle is unchanged, nothing is added, the rest of the state is untouched,
  and when no entry carries the handle the state is left as it was. In every case,
  match or no match, the disconnect broadcasts the resulting roster to all clients.
\<close>

theorem disconnect_removes_at_most_one:
  assumes "distinct (map fst (onlineUsers s))"
  shows "length (onlineUsers s) \<le> Suc (length (onlineUsers (fst (disconnect sock s))))
       \<and> set (onlineUsers (fst (disconnect sock s))) \<subseteq> set (onlineUsers s)
       \<and> (\<forall>e \<in> set (onlineUsers s).
             e \<notin> set (onlineUsers (fst (disconnect sock s))) \<longrightarrow> snd e = sock)
       \<and> (\<forall>u. map_of (onlineUsers s) u \<noteq> Some sock \<longrightarrow>
             map_of (onlineUsers (fst (disconnect sock s))) u = map_of (onlineUsers s) u)
       \<and> fst (disconnect sock s) = s\<lparr>onlineUsers := onlineUsers (fst (disconnect sock s))\<rparr>
       \<and> (sock \<notin> snd ` set (onlineUsers s) \<longrightarrow> fst (disconnect sock s) = s)
       \<and> snd (disconnect sock s)
           = [ToAll (OnlineUsers (map fst (onlineUsers (fst (disconnect sock s)))))]"
proof (cases "find (\<lambda>(key, val). val = sock) (onlineUsers s)")
  case None
  then have same: "fst (disconnect sock s) = s"
    by (simp add: disconnect_def)
  have ev: "snd (disconnect sock s) = [ToAll (OnlineUsers (map fst (onlineUsers s)))]"
    using None by (simp add: disconnect_def)
  from same ev show ?thesis by simp
next
  case (Some e)
  obtain k v where e: "e = (k, v)" by (cases e)
  from Some e have mem: "(k, v) \<in> set (onlineUsers s)" and v: "v = sock"
    using find_value_Some by fastforce+
  have reg': "onlineUsers (fst (disconnect sock s)) = AList.delete k (onlineUsers s)"
    using Some e by (simp add: disconnect_def Let_def)
  have ev: "snd (disconnect sock s)
              = [ToAll (OnlineUsers (map fst (AList.delete k (onlineUsers s))))]"
    using Some e by (simp add: disconnect_def Let_def)
  have k: "map_of (onlineUsers s) k = Some sock"
    using assms mem v by simp
  have len: "Suc (length (AList.delete k (onlineUsers s))) = length (onlineUsers s)"
    using assms mem by (rule length_delete_distinct)
  have sub: "set (AList.delete k (onlineUsers s)) \<subseteq> set (onlineUsers s)"
    by (auto simp: AList.delete_eq)
  have gone: "\<forall>e \<in> set (onlineUsers s). e \<notin> set (AList.delete k (onlineUsers s)) \<longrightarrow> snd e = sock"
  proof (intro ballI impI)
    fix e assume e_in: "e \<in> set (onlineUsers s)" and "e \<notin> set (AList.delete k (onlineUsers s))"
    then have "fst e = k" by (auto simp: AList.delete_eq)
    with e_in assms have "map_of (onlineUsers s) k = Some (snd e)"
      by (metis map_of_is_SomeI prod.collapse)
    with k show "snd e = sock" by simp
  qed
  have others: "\<forall>u. map_of (onlineUsers s) u \<noteq> Some sock \<longrightarrow>
                  map_of (AList.delete k (onlineUsers s)) u = map_of (onlineUsers s) u"
    using k by (auto simp: delete_conv')
  have frame: "fst (disconnect sock s) = s\<lparr>onlineUsers := onlineUsers (fst (disconnect sock s))\<rparr>"
    by (simp add: disconnect_def Let_def)
  have nomatch: "sock \<in> snd ` set (onlineUsers s)"
    using mem v by force
  show ?thesis
    unfolding reg' using len sub gone others frame nomatch reg' ev by simp
qed

theorem disconnect_removes_at_most_one_witness:
  "distinct (map fst (onlineUsers demo_group))
   \<and> onlineUsers (fst (disconnect ''s2'' demo_group)) = [(''alice'', ''s1''), (''dave'', ''s4'')]
   \<and> snd (disconnect ''s2'' demo_group) = [ToAll (OnlineUsers [''alice'', ''dave''])]
   \<and> length (onlineUsers demo_group) \<le> Suc (length (onlineUsers (fst (disconnect ''s2'' demo_group))))
   \<and> fst (disconnect ''s9'' demo_group) = demo_group"
  using disconnect_removes_at_most_one [of demo_group "''s2''"]
    disconnect_removes_at_most_one [of demo_group "''s9''"]
  by (simp add: disconnect_def demo_group_def Let_def AList.delete_eq)

section \<open>The coarse status along a run\<close>

lemma advanced_refl: "advanced ms ms"
  by (simp add: advanced_def)

lemma advanced_trans: "advanced a b \<Longrightarrow> advanced b c \<Longrightarrow> advanced a c"
  unfolding advanced_def by (metis le_trans less_le_trans)

lemma advanced_updateMany:
  "(\<And>m. q m \<Longrightarrow> mid (f m) = mid m \<and> rank (status m) \<le> rank (status (f m))) \<Longrightarrow>
   advanced ms (updateMany q f ms)"
  by (simp add: advanced_def updateMany_def)

lemma advanced_Cons: "mid y = mid x \<Longrightarrow> rank (status x) \<le> rank (status y) \<Longrightarrow>
  advanced xs ys \<Longrightarrow> advanced (x # xs) (y # ys)"
  by (auto simp: advanced_def nth_Cons split: nat.splits)

lemma advanced_update:
  "findById i ms = Some m \<Longrightarrow> mid (f m) = mid m \<Longrightarrow> rank (status m) \<le> rank (status (f m)) \<Longrightarrow>
   advanced ms (findByIdAndUpdate i f ms)"
proof (induction ms)
  case Nil
  then show ?case by (simp add: findById_def)
next
  case (Cons x xs)
  show ?case
  proof (cases "mid x = i")
    case True
    with Cons.prems have "m = x" by (simp add: findById_def)
    with True Cons.prems show ?thesis
      by (simp add: advanced_Cons advanced_refl)
  next
    case False
    with Cons.prems have "findById i xs = Some m" by (simp add: findById_def)
    with Cons False show ?thesis
      by (simp add: advanced_Cons)
  qed
qed

lemma advanced_append: "advanced ms (ms @ zs)"
  by (simp add: advanced_def nth_append)

lemma rank_le_2: "rank st \<le> 2"
  by (cases st) simp_all

lemma messageDelivered_advanced: "advanced (messages s) (messages (fst (messageDelivered i u now ok s)))"
  by (auto simp: messageDelivered_def delivered_write_def advanced_refl rank_le_2
      intro!: advanced_update split: option.splits)

lemma messageRead_advanced: "advanced (messages s) (messages (fst (messageRead i u now ok s)))"
  by (auto simp: messageRead_def read_write_def advanced_refl rank_le_2
      intro!: advanced_update split: option.splits)

lemma markMessagesRead_advanced: "advanced (messages s) (messages (fst (markMessagesRead a b ok s)))"
  by (auto simp: markMessagesRead_def advanced_refl rank_le_2 intro!: advanced_updateMany)

lemma markAsRead_advanced: "advanced (messages s) (messages (fst (markAsRead a b ok s)))"
  by (auto simp: markAsRead_def advanced_refl rank_le_2 intro!: advanced_updateMany)

lemma getMessages_advanced: "advanced (messages s) (messages (fst (getMessages a b p l db s)))"
  by (auto simp: getMessages_def Let_def advanced_refl intro!: advanced_updateMany split: storage.splits option.splits)

lemma getGroupMessages_advanced: "advanced (messages s) (messages (fst (getGroupMessages g p l db s)))"
  by (auto simp: getGroupMessages_def Let_def advanced_refl split: storage.splits option.splits)

lemma sendMessage_advanced: "advanced (messages s) (messages (fst (sendMessage a b c now db s)))"
  by (auto simp: sendMessage_def Let_def advanced_refl advanced_append)

lemma sendGroupMessage_advanced: "advanced (messages s) (messages (fst (sendGroupMessage a b c now db s)))"
  by (auto simp: sendGroupMessage_def Let_def advanced_refl advanced_append split: prod.splits bool.splits)

lemma step_advanced: "advanced (messages s) (messages (step x s))"
  by (cases x)
     (simp_all add: messageDelivered_advanced messageRead_advanced markMessagesRead_advanced
        markAsRead_advanced getMessages_advanced getGroupMessages_advanced sendMessage_advanced
        sendGroupMessage_advanced join_def disconnect_def sweep_def Let_def advanced_refl)

lemma run_advanced: "advanced (messages s) (messages (run ops s))"
proof (induction ops arbitrary: s)
  case Nil
  show ?case by (simp add: advanced_refl)
next
  case (Cons x xs)
  have "advanced (messages s) (messages (step x s))" by (rule step_advanced)
  moreover have "advanced (messages (step x s)) (messages (run xs (step x s)))" by (rule Cons.IH)
  ultimately show ?case using advanced_trans by simp
qed

lemma run_append: "run (xs @ ys) s = run ys (run xs s)"
  by (induction xs arbitrary: s) simp_all

text \<open>
  When every operation runs with nothing in between its storage calls, every stored
  message keeps its place and id and its coarse status never moves back.
\<close>

lemma status_monotone_uninterrupted:
  assumes "i < length (messages s)"
  shows "i < length (messages (run xs s))
       \<and> i < length (messages (run (xs @ ys) s))
       \<and> mid (messages (run (xs @ ys) s) ! i) = mid (messages s ! i)
       \<and> rank (status (messages s ! i)) \<le> rank (status (messages (run xs s) ! i))
       \<and> rank (status (messages (run xs s) ! i)) \<le> rank (status (messages (run (xs @ ys) s) ! i))"
proof -
  have a: "advanced (messages s) (messages (run xs s))" by (rule run_advanced)
  have b: "advanced (messages (run xs s)) (messages (run (xs @ ys) s))"
    unfolding run_append by (rule run_advanced)
  from a assms have i: "i < length (messages (run xs s))" by (simp add: advanced_def)
  from a assms have 1: "mid (messages (run xs s) ! i) = mid (messages s ! i)"
    and 2: "rank (status (messages s ! i)) \<le> rank (status (messages (run xs s) ! i))"
    by (simp_all add: advanced_def)
  from b i have 3: "i < length (messages (run (xs @ ys) s))"
    and 4: "mid (messages (run (xs @ ys) s) ! i) = mid (messages (run xs s) ! i)"
    and 5: "rank (status (messages (run xs s) ! i)) \<le> rank (status (messages (run (xs @ ys) s) ! i))"
    by (simp_all add: advanced_def)
  from i 1 2 3 4 5 show ?thesis by simp
qed

text \<open>
  A snapshot followed at once by its continuation is the handler itself: the schedule
  adds interleavings and changes nothing else.
\<close>

lemma snapshot_continue_delivered:
  "act (Continue (length ps) now ok2) (act (Snapshot AckOfDelivery i u ok1) (s, ps))
     = (fst (messageDelivered i u now (ok1 \<and> ok2) s), ps)"
  by (auto simp: messageDelivered_def nth_append split: option.splits)

lemma snapshot_continue_read:
  "act (Continue (length ps) now ok2) (act (Snapshot AckOfRead i u ok1) (s, ps))
     = (fst (messageRead i u now (ok1 \<and> ok2) s), ps)"
  by (auto simp: messageRead_def nth_append split: option.splits)

text \<open>
  C1. The coarse status can move back. Bob's delivered acknowledgment takes its snapshot
  of a direct message while it is sent; bob then marks the conversation read, and the
  message is read; the acknowledgment continues and, having found sent in its snapshot,
  writes delivered over it. The stored status has gone from read back to delivered.
\<close>

theorem delivered_write_overwrites_read:
  "map status (messages demo_direct) = [Sent]
   \<and> map status (messages (fst (schedule
        [Snapshot AckOfDelivery 0 ''bob'' True,
         Whole (MarkAsRead ''bob'' ''alice'' True)] (demo_direct, [])))) = [Read]
   \<and> map status (messages (fst (schedule
        [Snapshot AckOfDelivery 0 ''bob'' True,
         Whole (MarkAsRead ''bob'' ''alice'' True),
         Continue 0 300 True] (demo_direct, [])))) = [Delivered]"
  by (simp add: demo_direct_def findById_def markAsRead_def updateMany_def delivered_write_def)

section \<open>Duplicate suppression\<close>




lemma sendGroupMessage_allowed:
  assumes "grp \<noteq> []" "content \<noteq> []" "create_ok db"
    and "\<not> fst (shouldSuppress (cacheKey me grp content) now (messageCache s))"
  shows "messages (fst (sendGroupMessage me grp content now db s)) =
           messages s @
             [\<lparr>mid = newId (messages s), senderId = me, receiverId = None, groupId = Some grp,
               message = content,
               status = (if filter (\<lambda>(user, socketId). user \<noteq> me) (onlineUsers s) \<noteq> []
                         then Delivered else Sent),
               deliveredTo = map (\<lambda>(user, socketId). (user, now))
                               (filter (\<lambda>(user, socketId). user \<noteq> me) (onlineUsers s)),
               readBy = [], createdAt = now\<rparr>]"
    and "messageCache (fst (sendGroupMessage me grp content now db s)) =
           AList.update (cacheKey me grp content) now (messageCache s)"
  using assms
  by (auto simp: sendGroupMessage_def shouldSuppress_def Let_def split: prod.splits option.splits if_splits)

lemma sendGroupMessage_suppressed:
  assumes "grp \<noteq> []" "content \<noteq> []"
    and "fst (shouldSuppress (cacheKey me grp content) now (messageCache s))"
  shows "sendGroupMessage me grp content now db s = (s, (200, Info ''Duplicate request ignored''), [])"
  using assms
  by (auto simp: sendGroupMessage_def shouldSuppress_def Let_def split: prod.splits option.splits if_splits)

lemma shouldSuppress_after_set:
  "fst (shouldSuppress key t2 (AList.update key t1 cache)) \<longleftrightarrow> t1 \<noteq> 0 \<and> t2 - t1 < 3000"
  by (simp add: shouldSuppress_def update_conv')

text \<open>
  C2, as stated, fails for a direct target: \<open>sendMessage\<close> has no duplicate check, and two
  identical sends 1 ms apart persist two messages.
\<close>

theorem direct_duplicate_counterexample:
  "length (messages (run [SendMessage ''alice'' ''bob'' ''hi'' 1000 all_ok,
                          SendMessage ''alice'' ''bob'' ''hi'' 1001 all_ok] demo_direct))
     = length (messages demo_direct) + 2"
  by (simp add: sendMessage_def demo_direct_def all_ok_def Let_def)

text \<open>
  C2, amended. For a group target, when the first of two sends with the same sender,
  group and body is itself allowed and both creations succeed: the first persists one
  message; a second send less than 3000 ms after it (the first not stamped with time 0)
  changes nothing and is answered 200 "Duplicate request ignored"; a second send 3000 ms
  or more after it persists a second message. A direct send with a receiver and a body
  always persists a message when the creation succeeds.
\<close>

theorem group_duplicate_suppression:
  assumes "grp \<noteq> []" and "content \<noteq> []" and "create_ok db1" and "create_ok db2"
    and "\<not> fst (shouldSuppress (cacheKey me grp content) t1 (messageCache s))"
    and "s1 = fst (sendGroupMessage me grp content t1 db1 s)"
    and "r2 = sendGroupMessage me grp content t2 db2 s1"
  shows "length (messages s1) = length (messages s) + 1
       \<and> (t1 \<noteq> 0 \<and> t2 - t1 < 3000 \<longrightarrow>
            r2 = (s1, (200, Info ''Duplicate request ignored''), []))
       \<and> (3000 \<le> t2 - t1 \<longrightarrow> length (messages (fst r2)) = length (messages s) + 2)
       \<and> (receiver \<noteq> [] \<longrightarrow>
            length (messages (fst (sendMessage me receiver content now db1 s')))
              = length (messages s') + 1)"
proof -
  have m1: "length (messages s1) = length (messages s) + 1"
    using sendGroupMessage_allowed(1) [OF assms(1,2,3,5)] assms(6) by simp
  have c1: "messageCache s1 = AList.update (cacheKey me grp content) t1 (messageCache s)"
    using sendGroupMessage_allowed(2) [OF assms(1,2,3,5)] assms(6) by simp
  have dup: "t1 \<noteq> 0 \<and> t2 - t1 < 3000 \<longrightarrow> r2 = (s1, (200, Info ''Duplicate request ignored''), [])"
  proof
    assume "t1 \<noteq> 0 \<and> t2 - t1 < 3000"
    then have "fst (shouldSuppress (cacheKey me grp content) t2 (messageCache s1))"
      by (simp add: c1 shouldSuppress_after_set)
    then show "r2 = (s1, (200, Info ''Duplicate request ignored''), [])"
      using sendGroupMessage_suppressed [OF assms(1,2)] assms(7) by simp
  qed
  have two: "3000 \<le> t2 - t1 \<longrightarrow> length (messages (fst r2)) = length (messages s) + 2"
  proof
    assume "3000 \<le> t2 - t1"
    then have "\<not> fst (shouldSuppress (cacheKey me grp content) t2 (messageCache s1))"
      by (simp add: c1 shouldSuppress_after_set)
    then have "messages (fst r2) = messages s1 @ [last (messages (fst r2))]"
      using sendGroupMessage_allowed(1) [OF assms(1,2,4), of me t2 s1] assms(7) by simp
    then have "length (messages (fst r2)) = length (messages s1) + 1"
      by (metis length_append_singleton Suc_eq_plus1)
    with m1 show "length (messages (fst r2)) = length (messages s) + 2" by simp
  qed
  have direct: "receiver \<noteq> [] \<longrightarrow>
      length (messages (fst (sendMessage me receiver content now db1 s'))) = length (messages s') + 1"
    using assms(2,3) by (simp add: sendMessage_def Let_def)
  from m1 dup two direct show ?thesis by simp
qed

theorem group_duplicate_suppression_witness:
  "\<not> fst (shouldSuppress (cacheKey ''alice'' ''g1'' ''again'') 5000 (messageCache demo_group))
   \<and> create_ok all_ok
   \<and> length (messages (run [SendGroupMessage ''alice'' ''g1'' ''again'' 5000 all_ok,
                          SendGroupMessage ''alice'' ''g1'' ''again'' 7999 all_ok] demo_group))
     = length (messages demo_group) + 1
   \<and> length (messages (run [SendGroupMessage ''alice'' ''g1'' ''again'' 5000 all_ok,
                            SendGroupMessage ''alice'' ''g1'' ''again'' 8000 all_ok] demo_group))
     = length (messages demo_group) + 2"
  using group_duplicate_suppression [of "''g1''" "''again''" all_ok all_ok "''alice''" 5000 demo_group
      "fst (sendGroupMessage ''alice'' ''g1'' ''again'' 5000 all_ok demo_group)"
      "sendGroupMessage ''alice'' ''g1'' ''again'' 7999 all_ok
         (fst (sendGroupMessage ''alice'' ''g1'' ''again'' 5000 all_ok demo_group))" 7999]
    group_duplicate_suppression [of "''g1''" "''again''" all_ok all_ok "''alice''" 5000 demo_group
      "fst (sendGroupMessage ''alice'' ''g1'' ''again'' 5000 all_ok demo_group)"
      "sendGroupMessage ''alice'' ''g1'' ''again'' 8000 all_ok
         (fst (sendGroupMessage ''alice'' ''g1'' ''again'' 5000 all_ok demo_group))" 8000]
  by (simp add: all_ok_def demo_group_def shouldSuppress_def cacheKey_def)

section \<open>Group delivery at send time\<close>

lemma map_fst_stamp:
  "map fst (map (\<lambda>(user, socketId). (user, now)) (filter (\<lambda>(user, socketId). user \<noteq> me) reg))
     = filter (\<lambda>u. u \<noteq> me) (map fst reg)"
  by (induction reg) auto

text \<open>
  C3, as stated, fails: dave is online but not a member of g1, and is recorded in
  \<open>deliveredTo\<close> all the same; the online members of g1 other than the sender are bob alone.
\<close>

theorem group_deliveredTo_counterexample:
  "map fst (deliveredTo (last (messages (fst (sendGroupMessage ''alice'' ''g1'' ''news'' 5000 all_ok demo_group)))))
     = [''bob'', ''dave'']
   \<and> filter (\<lambda>u. u \<noteq> ''alice'' \<and> online_socket (onlineUsers demo_group) u \<noteq> None)
        (the (map_of (groups demo_group) ''g1''))
     = [''bob'']"
  by (simp add: sendGroupMessage_def shouldSuppress_def cacheKey_def demo_group_def all_ok_def
      online_socket_def Let_def)

text \<open>
  C3, amended. An allowed group send whose creation succeeds appends one message of that
  sender and group whose \<open>deliveredTo\<close> holds exactly the users of the whole presence
  registry other than the sender, members of the group or not, in registry order and
  each once; its status is delivered if that list is non-empty, else sent.
\<close>

theorem group_deliveredTo_all_online:
  assumes "grp \<noteq> []" and "content \<noteq> []" and "create_ok db"
    and "\<not> fst (shouldSuppress (cacheKey me grp content) now (messageCache s))"
    and "distinct (map fst (onlineUsers s))"
    and "m = last (messages (fst (sendGroupMessage me grp content now db s)))"
  shows "messages (fst (sendGroupMessage me grp content now db s)) = messages s @ [m]
       \<and> senderId m = me \<and> groupId m = Some grp
       \<and> map fst (deliveredTo m) = filter (\<lambda>u. u \<noteq> me) (map fst (onlineUsers s))
       \<and> distinct (map fst (deliveredTo m))
       \<and> status m = (if deliveredTo m \<noteq> [] then Delivered else Sent)"
proof -
  note sent = sendGroupMessage_allowed(1) [OF assms(1,2,3,4)]
  have m: "m = \<lparr>mid = newId (messages s), senderId = me, receiverId = None, groupId = Some grp,
               message = content,
               status = (if filter (\<lambda>(user, socketId). user \<noteq> me) (onlineUsers s) \<noteq> []
                         then Delivered else Sent),
               deliveredTo = map (\<lambda>(user, socketId). (user, now))
                               (filter (\<lambda>(user, socketId). user \<noteq> me) (onlineUsers s)),
               readBy = [], createdAt = now\<rparr>"
    unfolding assms(6) sent by simp
  have ids: "map fst (deliveredTo m) = filter (\<lambda>u. u \<noteq> me) (map fst (onlineUsers s))"
    unfolding m using map_fst_stamp [of now me "onlineUsers s"] by simp
  have dist: "distinct (map fst (deliveredTo m))"
    unfolding ids using assms(5) by simp
  have st: "status m = (if deliveredTo m \<noteq> [] then Delivered else Sent)"
    unfolding m by simp
  have app: "messages (fst (sendGroupMessage me grp content now db s)) = messages s @ [m]"
    unfolding sent m by simp
  have who: "senderId m = me \<and> groupId m = Some grp"
    unfolding m by simp
  from app who ids dist st show ?thesis by simp
qed

theorem group_deliveredTo_all_online_witness:
  "distinct (map fst (onlineUsers demo_group))
   \<and> \<not> fst (shouldSuppress (cacheKey ''alice'' ''g1'' ''news'') 5000 (messageCache demo_group))
   \<and> map fst (deliveredTo (last (messages (fst (sendGroupMessage ''alice'' ''g1'' ''news'' 5000 all_ok demo_group)))))
       = [''bob'', ''dave'']
   \<and> status (last (messages (fst (sendGroupMessage ''alice'' ''g1'' ''news'' 5000 all_ok demo_group))))
       = Delivered"
  using group_deliveredTo_all_online [of "''g1''" "''news''" all_ok "''alice''" 5000 demo_group
      "last (messages (fst (sendGroupMessage ''alice'' ''g1'' ''news'' 5000 all_ok demo_group)))"]
  by (simp add: demo_group_def all_ok_def sendGroupMessage_def shouldSuppress_def cacheKey_def Let_def)

section \<open>Acknowledgments and the events they send\<close>

text \<open>
  C4. A read acknowledgment by bob on a group message records bob in \<open>readBy\<close>, but the
  stored coarse status stays delivered, while the sender is told the status is read.
\<close>

theorem group_read_leaves_status:
  "messages (fst (messageRead 0 ''bob'' 200 True demo_group))
     = [\<lparr>mid = 0, senderId = ''alice'', receiverId = None, groupId = Some ''g1'',
         message = ''hello'', status = Delivered, deliveredTo = [(''bob'', 100)],
         readBy = [(''bob'', 200)], createdAt = 100\<rparr>]
   \<and> snd (messageRead 0 ''bob'' 200 True demo_group)
     = [ToSocket ''s1'' (MessageStatusUpdate 0 Read)]"
  by (simp add: messageRead_def read_write_def demo_group_def findById_def notify_sender_def
      online_socket_def)

text \<open>
  C10. The status update sent to the sender does not always name the message's
  resulting status. On a direct message that is already read, a delivered
  acknowledgment leaves the stored status read and sends the sender a status update
  naming delivered. From a sent message, a read acknowledgment followed by a late
  delivered one tells the sender read, then delivered, while the message stays read.
\<close>

theorem late_delivered_event_names_delivered:
  "snd (messageDelivered 0 ''bob'' 300 True demo_read)
     = [ToSocket ''s1'' (MessageStatusUpdate 0 Delivered)]
   \<and> map status (messages (fst (messageDelivered 0 ''bob'' 300 True demo_read))) = [Read]
   \<and> snd (messageRead 0 ''bob'' 200 True demo_direct)
     = [ToSocket ''s1'' (MessageStatusUpdate 0 Read)]
   \<and> snd (messageDelivered 0 ''bob'' 300 True (fst (messageRead 0 ''bob'' 200 True demo_direct)))
     = [ToSocket ''s1'' (MessageStatusUpdate 0 Delivered)]
   \<and> map status (messages (fst (messageDelivered 0 ''bob'' 300 True
        (fst (messageRead 0 ''bob'' 200 True demo_direct))))) = [Read]"
  by (simp add: messageDelivered_def delivered_write_def messageRead_def read_write_def
      demo_read_def demo_direct_def findById_def notify_sender_def online_socket_def)

section \<open>History pages\<close>

lemma sorted_rev_negated:
  "sorted (map (\<lambda>m. - f m) xs) \<Longrightarrow> sorted (map f (rev xs))" for f :: "'a \<Rightarrow> int"
  by (induction xs) (auto simp: sorted_append)

lemma sorted_newest_first_slice:
  "sorted (map createdAt (rev (take n (drop k (newest_first ms)))))"
proof -
  have "sorted (map (\<lambda>m. - createdAt m) (newest_first ms))"
    by (simp add: newest_first_def)
  then have "sorted (drop k (map (\<lambda>m. - createdAt m) (newest_first ms)))"
    by (rule sorted_wrt_drop)
  then have "sorted (take n (drop k (map (\<lambda>m. - createdAt m) (newest_first ms))))"
    by (rule sorted_wrt_take)
  then have "sorted (map (\<lambda>m. - createdAt m) (take n (drop k (newest_first ms))))"
    by (simp add: take_map drop_map)
  then show ?thesis by (rule sorted_rev_negated)
qed

lemma getMessages_page:
  assumes "getMessages me receiver p l db s = (s', (200, Page ms pg), es)"
  shows "ms = rev (take (nat \<bar>parseInt_or l 50\<bar>)
               (drop (nat ((parseInt_or p 1 - 1) * parseInt_or l 50))
                  (newest_first (filter (direct_query me receiver) (messages s)))))"
  using assms
  by (auto simp: getMessages_def find_page_def Let_def split: storage.splits option.splits if_splits)

lemma getGroupMessages_page:
  assumes "getGroupMessages grp p l (Resolves t) s = (s', (200, Page ms pg), es)"
    and "t < 3000" and "0 \<le> (parseInt_or p 1 - 1) * parseInt_or l 50"
  shows "ms = rev (take (nat \<bar>parseInt_or l 50\<bar>)
               (drop (nat ((parseInt_or p 1 - 1) * parseInt_or l 50))
                  (newest_first (filter (\<lambda>m. groupId m = Some grp) (messages s)))))"
  using assms
  by (auto simp: getGroupMessages_def find_page_def Let_def split: storage.splits option.splits if_splits)

lemma getGroupMessages_sorted:
  assumes "getGroupMessages grp p l db s = (s', (200, Page ms pg), es)"
  shows "sorted (map createdAt ms)"
  using assms sorted_newest_first_slice
  by (auto simp: getGroupMessages_def find_page_def empty_page_def Let_def
      split: storage.splits option.splits if_splits)

text \<open>
  C7. Whenever a history fetch answers 200 with a page, the page's \<open>createdAt\<close> values are
  non-decreasing; for a direct fetch, and for a group fetch whose query resolves before
  the timer with a non-negative skip, the page is the skip/limit slice of the matching
  messages taken newest first, reversed.
\<close>

theorem history_page_oldest_first:
  assumes "limit = parseInt_or l 50" and "skip = (parseInt_or p 1 - 1) * limit"
  shows "(getMessages me receiver p l db s = (s1, (200, Page ms1 pg1), es1) \<longrightarrow>
            ms1 = rev (take (nat \<bar>limit\<bar>) (drop (nat skip)
                     (newest_first (filter (direct_query me receiver) (messages s)))))
            \<and> sorted (map createdAt ms1))
       \<and> (getGroupMessages grp p l db s = (s2, (200, Page ms2 pg2), es2) \<longrightarrow>
            sorted (map createdAt ms2)
            \<and> ((\<exists>t. db = Resolves t \<and> t < 3000) \<and> 0 \<le> skip \<longrightarrow>
                 ms2 = rev (take (nat \<bar>limit\<bar>) (drop (nat skip)
                        (newest_first (filter (\<lambda>m. groupId m = Some grp) (messages s)))))))"
proof -
  have d: "getMessages me receiver p l db s = (s1, (200, Page ms1 pg1), es1) \<longrightarrow>
            ms1 = rev (take (nat \<bar>limit\<bar>) (drop (nat skip)
                     (newest_first (filter (direct_query me receiver) (messages s)))))
            \<and> sorted (map createdAt ms1)"
  proof
    assume a: "getMessages me receiver p l db s = (s1, (200, Page ms1 pg1), es1)"
    have eq: "ms1 = rev (take (nat \<bar>limit\<bar>) (drop (nat skip)
                     (newest_first (filter (direct_query me receiver) (messages s)))))"
      using getMessages_page [OF a] assms by simp
    then show "ms1 = rev (take (nat \<bar>limit\<bar>) (drop (nat skip)
                     (newest_first (filter (direct_query me receiver) (messages s)))))
            \<and> sorted (map createdAt ms1)"
      using sorted_newest_first_slice by simp
  qed
  have g: "getGroupMessages grp p l db s = (s2, (200, Page ms2 pg2), es2) \<longrightarrow>
            sorted (map createdAt ms2)
            \<and> ((\<exists>t. db = Resolves t \<and> t < 3000) \<and> 0 \<le> skip \<longrightarrow>
                 ms2 = rev (take (nat \<bar>limit\<bar>) (drop (nat skip)
                        (newest_first (filter (\<lambda>m. groupId m = Some grp) (messages s))))))"
  proof (intro impI conjI)
    assume a: "getGroupMessages grp p l db s = (s2, (200, Page ms2 pg2), es2)"
    show "sorted (map createdAt ms2)" using getGroupMessages_sorted [OF a] .
    assume b: "(\<exists>t. db = Resolves t \<and> t < 3000) \<and> 0 \<le> skip"
    then obtain t where t: "db = Resolves t" "t < 3000" by blast
    show "ms2 = rev (take (nat \<bar>limit\<bar>) (drop (nat skip)
                        (newest_first (filter (\<lambda>m. groupId m = Some grp) (messages s)))))"
      using getGroupMessages_page [of grp p l t s s2 ms2 pg2 es2] a b t assms by simp
  qed
  from d g show ?thesis by simp
qed

theorem history_page_oldest_first_witness:
  "fst (snd (getMessages ''bob'' ''alice'' (Some 1) (Some 2) (Resolves 10) demo_history))
     = (200, Page [messages demo_history ! 2, messages demo_history ! 0]
               \<lparr>currentPage = 1, totalPages = 2, totalMessages = 3, hasMore = True\<rparr>)
   \<and> map createdAt [messages demo_history ! 2, messages demo_history ! 0] = [200, 300]
   \<and> fst (snd (getGroupMessages ''g1'' None None (Resolves 10) demo_history))
     = (200, Page [messages demo_history ! 4, messages demo_history ! 3]
               \<lparr>currentPage = 1, totalPages = 1, totalMessages = 2, hasMore = False\<rparr>)"
  using history_page_oldest_first [of 2 "Some 2" 0 "Some 1" "''bob''" "''alice''" "Resolves 10" demo_history
      "fst (getMessages ''bob'' ''alice'' (Some 1) (Some 2) (Resolves 10) demo_history)"
      "[messages demo_history ! 2, messages demo_history ! 0]"
      "\<lparr>currentPage = 1, totalPages = 2, totalMessages = 3, hasMore = True\<rparr>"
      "snd (snd (getMessages ''bob'' ''alice'' (Some 1) (Some 2) (Resolves 10) demo_history))"]
  by (simp add: demo_history_def getMessages_def getGroupMessages_def find_page_def
      parseInt_or_def direct_query_def newest_first_def populated_receiver_def ceil_div_def
      notify_sender_def online_socket_def updateMany_def Let_def)

text \<open>
  C5, as stated, fails for the direct-pair fetch, which has no timer: storage that takes
  5000 ms and resolves gives the real, non-empty page, and storage that rejects gives a
  500 error response.
\<close>

theorem direct_history_timeout_counterexample:
  "fst (snd (getMessages ''bob'' ''alice'' None None (Resolves 5000) demo_direct))
     = (200, Page (messages demo_direct)
               \<lparr>currentPage = 1, totalPages = 1, totalMessages = 1, hasMore = False\<rparr>)
   \<and> messages demo_direct \<noteq> []
   \<and> fst (snd (getMessages ''bob'' ''alice'' None None (Rejects 5000) demo_direct))
     = (500, Failure ''Failed to fetch messages'')"
  by (simp add: demo_direct_def getMessages_def find_page_def
      parseInt_or_def direct_query_def newest_first_def populated_receiver_def ceil_div_def
      notify_sender_def online_socket_def updateMany_def Let_def)

text \<open>
  C5, amended. A group history fetch whose combined query is rejected, or has not
  resolved when more than 3000 ms have passed, leaves the state as it is and answers 200
  with no messages, \<open>totalPages\<close> 0, \<open>totalMessages\<close> 0 and \<open>hasMore\<close> false. The
  direct-pair fetch has no timeout, and its answer does not depend on how long the
  storage takes: when the storage rejects it answers 500; when the storage resolves it
  answers 200 with the real page and counts if the skip is not negative and every
  message of the page has a receiver document, and 500 otherwise.
\<close>

theorem history_timeout_group_only:
  assumes "limit = parseInt_or l 50" and "skip = (parseInt_or p 1 - 1) * limit"
    and "matching = filter (direct_query me receiver) (messages s)"
    and "slice = take (nat \<bar>limit\<bar>) (drop (nat skip) (newest_first matching))"
  shows "(db = Rejects t \<or> (db = Resolves t \<and> 3000 < t) \<longrightarrow>
            getGroupMessages grp p l db s
              = (s, (200, Page [] \<lparr>currentPage = parseInt_or p 1, totalPages = 0,
                                    totalMessages = 0, hasMore = False\<rparr>), []))
       \<and> getMessages me receiver p l (Rejects t) s
           = (s, (500, Failure ''Failed to fetch messages''), [])
       \<and> getMessages me receiver p l (Resolves t) s = getMessages me receiver p l (Resolves 0) s
       \<and> (0 \<le> skip \<and> list_all (populated_receiver s) slice \<longrightarrow>
            fst (snd (getMessages me receiver p l (Resolves t) s))
              = (200, Page (rev slice)
                   \<lparr>currentPage = parseInt_or p 1,
                    totalPages = ceil_div (int (length matching)) limit,
                    totalMessages = int (length matching),
                    hasMore = (skip + int (length slice) < int (length matching))\<rparr>))
       \<and> (skip < 0 \<or> \<not> list_all (populated_receiver s) slice \<longrightarrow>
            getMessages me receiver p l (Resolves t) s
              = (s, (500, Failure ''Failed to fetch messages''), []))"
proof -
  have g: "db = Rejects t \<or> (db = Resolves t \<and> 3000 < t) \<longrightarrow>
            getGroupMessages grp p l db s
              = (s, (200, Page [] \<lparr>currentPage = parseInt_or p 1, totalPages = 0,
                                    totalMessages = 0, hasMore = False\<rparr>), [])"
    by (auto simp: getGroupMessages_def empty_page_def Let_def)
  have r: "getMessages me receiver p l (Rejects t) s
             = (s, (500, Failure ''Failed to fetch messages''), [])"
    by (simp add: getMessages_def Let_def)
  have i: "getMessages me receiver p l (Resolves t) s = getMessages me receiver p l (Resolves 0) s"
    by (simp add: getMessages_def Let_def)
  have ok: "0 \<le> skip \<and> list_all (populated_receiver s) slice \<longrightarrow>
            fst (snd (getMessages me receiver p l (Resolves t) s))
              = (200, Page (rev slice)
                   \<lparr>currentPage = parseInt_or p 1,
                    totalPages = ceil_div (int (length matching)) limit,
                    totalMessages = int (length matching),
                    hasMore = (skip + int (length slice) < int (length matching))\<rparr>)"
    using assms by (auto simp: getMessages_def find_page_def Let_def)
  have bad: "skip < 0 \<or> \<not> list_all (populated_receiver s) slice \<longrightarrow>
            getMessages me receiver p l (Resolves t) s
              = (s, (500, Failure ''Failed to fetch messages''), [])"
    using assms by (auto simp: getMessages_def find_page_def Let_def)
  from g r i ok bad show ?thesis by simp
qed

theorem history_timeout_group_only_witness:
  "getGroupMessages ''g1'' (Some 1) (Some 2) (Resolves 3001) demo_history
     = (demo_history, (200, Page [] \<lparr>currentPage = 1, totalPages = 0,
                                      totalMessages = 0, hasMore = False\<rparr>), [])
   \<and> getGroupMessages ''g1'' (Some (- 1)) (Some 2) (Rejects 2000) demo_history
     = (demo_history, (200, Page [] \<lparr>currentPage = - 1, totalPages = 0,
                                      totalMessages = 0, hasMore = False\<rparr>), [])
   \<and> list_all (populated_receiver demo_history)
        [messages demo_history ! 0, messages demo_history ! 2]
   \<and> fst (snd (getMessages ''bob'' ''alice'' (Some 1) (Some 2) (Resolves 3001) demo_history))
     = (200, Page [messages demo_history ! 2, messages demo_history ! 0]
               \<lparr>currentPage = 1, totalPages = 2, totalMessages = 3, hasMore = True\<rparr>)
   \<and> getMessages ''bob'' ''alice'' (Some (- 1)) (Some 2) (Resolves 2000) demo_history
     = (demo_history, (500, Failure ''Failed to fetch messages''), [])"
  using history_timeout_group_only [OF refl refl refl refl,
            where l = "Some 2" and p = "Some 1" and me = "''bob''" and receiver = "''alice''"
              and s = demo_history and db = "Resolves 3001" and t = 3001 and grp = "''g1''"]
    history_timeout_group_only [OF refl refl refl refl,
            where l = "Some 2" and p = "Some (- 1)" and me = "''bob''" and receiver = "''alice''"
              and s = demo_history and db = "Rejects 2000" and t = 2000 and grp = "''g1''"]
  by (simp add: demo_history_def getMessages_def getGroupMessages_def empty_page_def
      find_page_def parseInt_or_def direct_query_def newest_first_def populated_receiver_def
      ceil_div_def notify_sender_def online_socket_def updateMany_def Let_def)

text \<open>
  C6, as stated, fails: a direct fetch by bob moves the message addressed to bob from
  sent to delivered in the store.
\<close>

theorem history_fetch_counterexample:
  "map status (messages demo_direct) = [Sent]
   \<and> map status (messages (fst (getMessages ''bob'' ''alice'' None None (Resolves 10) demo_direct)))
       = [Delivered]"
  by (simp add: demo_direct_def getMessages_def find_page_def
      parseInt_or_def direct_query_def newest_first_def populated_receiver_def ceil_div_def
      notify_sender_def online_socket_def updateMany_def Let_def)

lemma find_page_subset:
  "find_page q skip limit ms = Some (n, found) \<Longrightarrow> set found \<subseteq> {m \<in> set ms. q m}"
proof -
  assume a: "find_page q skip limit ms = Some (n, found)"
  then have "found = take (nat \<bar>limit\<bar>) (drop (nat skip) (newest_first (filter q ms)))"
    by (simp add: find_page_def split: if_splits)
  then have "set found \<subseteq> set (newest_first (filter q ms))"
    by (metis set_take_subset set_drop_subset subset_trans)
  then show ?thesis by (auto simp: newest_first_def)
qed

lemma getMessages_state:
  "fst (getMessages me receiver p l db s) = s
   \<or> (\<exists>n found. find_page (direct_query me receiver)
                   ((parseInt_or p 1 - 1) * parseInt_or l 50) (parseInt_or l 50) (messages s)
                 = Some (n, found)
        \<and> fst (getMessages me receiver p l db s)
            = s\<lparr>messages :=
                  updateMany (\<lambda>m. mid m \<in> mid ` {x \<in> set found. receiverId x = Some me \<and> status x = Sent}
                                   \<and> status m = Sent)
                    (\<lambda>m. m\<lparr>status := Delivered\<rparr>) (messages s)\<rparr>)"
  by (cases db) (auto simp: getMessages_def Let_def split: option.splits)

lemma distinct_mid_eq:
  "distinct (map mid ms) \<Longrightarrow> x \<in> set ms \<Longrightarrow> y \<in> set ms \<Longrightarrow> mid x = mid y \<Longrightarrow> x = y"
  by (meson distinct_map inj_onD)

text \<open>
  C6, amended. A group fetch leaves the whole state unchanged. A direct fetch changes
  nothing but the message list, and there every message is either unchanged or differs
  only in its status, moved from sent to delivered; the latter only for a direct message
  addressed to the requester and sent by the other party. \<open>deliveredTo\<close> and \<open>readBy\<close>
  are never changed by a fetch.
\<close>

theorem history_fetch_frame:
  assumes "distinct (map mid (messages s))"
    and "s' = fst (getMessages me receiver p l db s)"
  shows "fst (getGroupMessages grp p l db s) = s
       \<and> s' = s\<lparr>messages := messages s'\<rparr>
       \<and> length (messages s') = length (messages s)
       \<and> (\<forall>i < length (messages s).
             messages s' ! i = messages s ! i
           \<or> (messages s' ! i = (messages s ! i)\<lparr>status := Delivered\<rparr>
              \<and> status (messages s ! i) = Sent
              \<and> receiverId (messages s ! i) = Some me
              \<and> senderId (messages s ! i) = receiver
              \<and> groupId (messages s ! i) = None))"
proof -
  have grp: "fst (getGroupMessages grp p l db s) = s"
    by (auto simp: getGroupMessages_def Let_def split: option.splits storage.splits)
  from getMessages_state [of me receiver p l db s]
  show ?thesis
  proof
    assume "fst (getMessages me receiver p l db s) = s"
    with assms(2) grp show ?thesis by simp
  next
    assume "\<exists>n found. find_page (direct_query me receiver)
                   ((parseInt_or p 1 - 1) * parseInt_or l 50) (parseInt_or l 50) (messages s)
                 = Some (n, found)
        \<and> fst (getMessages me receiver p l db s)
            = s\<lparr>messages :=
                  updateMany (\<lambda>m. mid m \<in> mid ` {x \<in> set found. receiverId x = Some me \<and> status x = Sent}
                                   \<and> status m = Sent)
                    (\<lambda>m. m\<lparr>status := Delivered\<rparr>) (messages s)\<rparr>"
    then obtain n found where
      fp: "find_page (direct_query me receiver)
             ((parseInt_or p 1 - 1) * parseInt_or l 50) (parseInt_or l 50) (messages s) = Some (n, found)"
      and s': "s' = s\<lparr>messages :=
                  updateMany (\<lambda>m. mid m \<in> mid ` {x \<in> set found. receiverId x = Some me \<and> status x = Sent}
                                   \<and> status m = Sent)
                    (\<lambda>m. m\<lparr>status := Delivered\<rparr>) (messages s)\<rparr>"
      using assms(2) by blast
    have sub: "set found \<subseteq> {m \<in> set (messages s). direct_query me receiver m}"
      using fp by (rule find_page_subset)
    have each: "messages s' ! i = messages s ! i
           \<or> (messages s' ! i = (messages s ! i)\<lparr>status := Delivered\<rparr>
              \<and> status (messages s ! i) = Sent
              \<and> receiverId (messages s ! i) = Some me
              \<and> senderId (messages s ! i) = receiver
              \<and> groupId (messages s ! i) = None)" if i: "i < length (messages s)" for i
    proof (cases "mid (messages s ! i) \<in> mid ` {x \<in> set found. receiverId x = Some me \<and> status x = Sent}
                   \<and> status (messages s ! i) = Sent")
      case False
      with i show ?thesis by (simp add: s' updateMany_def)
    next
      case True
      then obtain x where x: "x \<in> set found" "receiverId x = Some me" "mid x = mid (messages s ! i)"
        by auto
      from x(1) sub have xin: "x \<in> set (messages s)" and q: "direct_query me receiver x" by auto
      have "x = messages s ! i"
        using distinct_mid_eq [OF assms(1) xin _ x(3)] i by simp
      with q x(2) have "receiverId (messages s ! i) = Some me"
        "senderId (messages s ! i) = receiver" "groupId (messages s ! i) = None"
        by (auto simp: direct_query_def)
      with True i show ?thesis by (simp add: s' updateMany_def)
    qed
    have len: "length (messages s') = length (messages s)"
      by (simp add: s' updateMany_def)
    have fr: "s' = s\<lparr>messages := messages s'\<rparr>"
      by (simp add: s')
    from grp fr len each show ?thesis by simp
  qed
qed

theorem history_fetch_frame_witness:
  "distinct (map mid (messages demo_history))
   \<and> map status (messages demo_history) = [Sent, Read, Sent, Sent, Sent]
   \<and> map status (messages (fst (getMessages ''bob'' ''alice'' (Some 1) (Some 2) (Resolves 10) demo_history)))
       = [Delivered, Read, Delivered, Sent, Sent]
   \<and> map deliveredTo (messages (fst (getMessages ''bob'' ''alice'' (Some 1) (Some 2) (Resolves 10) demo_history)))
       = map deliveredTo (messages demo_history)"
  using history_fetch_frame [of demo_history
      "fst (getMessages ''bob'' ''alice'' (Some 1) (Some 2) (Resolves 10) demo_history)"
      "''bob''" "''alice''" "Some 1" "Some 2" "Resolves 10" "''g1''"]
  by (simp add: demo_history_def getMessages_def find_page_def
      parseInt_or_def direct_query_def newest_first_def populated_receiver_def ceil_div_def
      notify_sender_def online_socket_def updateMany_def Let_def)

end
